theory Spec2Isabelle
  imports Main "HOL-Library.AList"
begin

section \<open>The collider signalling server: rooms, clients and the relay handlers\<close>

text \<open>
  A shallow embedding of \<^verbatim>\<open>src/collider/collider.go\<close>. The functions of that file
  (\<^verbatim>\<open>addClientToRoom\<close>, \<^verbatim>\<open>removeClientFromRoom\<close>, \<^verbatim>\<open>saveMessageFromClient\<close>,
  \<^verbatim>\<open>sendMessageToCollider\<close>, \<^verbatim>\<open>httpMessageHandler\<close>, \<^verbatim>\<open>wsHandler\<close>) are translated
  branch by branch. The types \<^verbatim>\<open>roomTable\<close>, \<^verbatim>\<open>room\<close> and \<^verbatim>\<open>client\<close> and their methods
  are declared in files that are not part of the sources at hand; they are modelled
  from the specification, each under a comment that says so.

  Go pointers (\<^verbatim>\<open>*room\<close>, \<^verbatim>\<open>*client\<close>) are modelled by explicit write-back: a function
  that mutates a room through a pointer returns the table with that room replaced.
\<close>

subsection \<open>Constants of collider.go\<close>

definition RESPONSE_ERROR :: string where
  "RESPONSE_ERROR = ''ERROR''"

definition RESPONSE_ROOM_FULL :: string where
  "RESPONSE_ROOM_FULL = ''FULL''"

definition RESPONSE_UNKNOWN_ROOM :: string where
  "RESPONSE_UNKNOWN_ROOM = ''UNKNOWN_ROOM''"

definition RESPONSE_UNKNOWN_CLIENT :: string where
  "RESPONSE_UNKNOWN_CLIENT = ''UNKNOWN_CLIENT''"

definition RESPONSE_DUPLICATE_CLIENT :: string where
  "RESPONSE_DUPLICATE_CLIENT = ''DUPLICATE_CLIENT''"

definition RESPONSE_SUCCESS :: string where
  "RESPONSE_SUCCESS = ''SUCCESS''"

definition RESPONSE_INVALID_REQUEST :: string where
  "RESPONSE_INVALID_REQUEST = ''INVALID_REQUEST''"

definition LOOPBACK_CLIENT_ID :: string where
  "LOOPBACK_CLIENT_ID = ''LOOPBACK_CLIENT_ID''"

definition runesDigital :: string where
  "runesDigital = ''0123456789''"

text \<open>
  \<^verbatim>\<open>generateRandom\<close> (lines 57-64). The random source is the parameter \<open>rnd\<close>: the
  draw for position \<open>i\<close> is \<open>rnd i\<close>, reduced to the range of
  \<^verbatim>\<open>rand.Intn(len(letters))\<close>.
\<close>

definition generateRandom :: "nat \<Rightarrow> string \<Rightarrow> (nat \<Rightarrow> nat) \<Rightarrow> string" where
  "generateRandom n runes rnd = map (\<lambda>i. runes ! (rnd i mod length runes)) [0..<n]"

subsection \<open>Data model\<close>

text \<open>
  Modelled from the spec: the struct \<^verbatim>\<open>client\<close> (its declaration is missing). The spec
  gives a client a role flag, an ordered pending-message buffer and an optional
  live-connection reference; collider.go reads and writes the fields
  \<^verbatim>\<open>is_initiator\<close> and \<^verbatim>\<open>msgs\<close>. A connection is identified by a number. Go's
  \<^verbatim>\<open>nil\<close> slice and the empty slice are both the empty list.
\<close>

type_synonym conn = nat

record client =
  is_initiator :: bool
  msgs :: "string list"
  conn :: "conn option"

text \<open>
  Modelled from the spec: the struct \<^verbatim>\<open>room\<close> (its declaration is missing), of which
  collider.go uses the field \<^verbatim>\<open>clients\<close>, a Go map from client identifier to
  \<^verbatim>\<open>*client\<close>. The map is an association list with distinct keys (\<open>wf_room\<close>);
  \<^verbatim>\<open>len(room.clients)\<close> is its length. The order of the list stands for the
  iteration order of the Go map, which matters only where a room has more than one
  candidate for "the other client".
\<close>

record room =
  clients :: "(string \<times> client) list"

definition wf_room :: "room \<Rightarrow> bool" where
  "wf_room r = distinct (map fst (clients r))"

text \<open>
  Modelled from the spec: the struct \<^verbatim>\<open>roomTable\<close> (its declaration is missing), of
  which collider.go uses the field \<^verbatim>\<open>rooms\<close>, a Go map from room identifier to
  \<^verbatim>\<open>*room\<close>. The \<^verbatim>\<open>Collider\<close> embeds the table; its dashboard only counts events and
  is left out.
\<close>

record roomTable =
  rooms :: "string \<rightharpoonup> room"

definition newRoomTable :: roomTable where
  "newRoomTable = \<lparr>rooms = Map.empty\<rparr>"

subsection \<open>Methods of room, client and roomTable used by collider.go\<close>

text \<open>
  Modelled from the spec: \<^verbatim>\<open>roomTable.room(id)\<close> is missing. Spec 4.1,
  \<^verbatim>\<open>getOrCreateRoom\<close>: "returns existing room or creates an empty one". The result is
  the table (with the room created when it was absent) and the room.
\<close>

definition roomTable_room :: "roomTable \<Rightarrow> string \<Rightarrow> roomTable \<times> room" where
  "roomTable_room rt room_id =
     (case rooms rt room_id of
        Some r \<Rightarrow> (rt, r)
      | None \<Rightarrow> (rt\<lparr>rooms := (rooms rt)(room_id \<mapsto> \<lparr>clients = []\<rparr>)\<rparr>, \<lparr>clients = []\<rparr>))"

text \<open>Writing a room back through its pointer.\<close>

definition set_room :: "roomTable \<Rightarrow> string \<Rightarrow> room \<Rightarrow> roomTable" where
  "set_room rt room_id r = rt\<lparr>rooms := (rooms rt)(room_id \<mapsto> r)\<rparr>"

text \<open>
  Modelled from the spec: \<^verbatim>\<open>room.client(id)\<close> is missing. It returns the member with
  that identifier and creates it when absent ("at most one Client per identifier per
  Room"). A new client has an empty buffer and no live connection; its role flag is
  "true for the first member of a room" (spec 3).
\<close>

definition room_client :: "room \<Rightarrow> string \<Rightarrow> room" where
  "room_client r client_id =
     (case map_of (clients r) client_id of
        Some c \<Rightarrow> r
      | None \<Rightarrow>
          r\<lparr>clients := clients r @
               [(client_id, \<lparr>is_initiator = (clients r = []), msgs = [], conn = None\<rparr>)]\<rparr>)"

text \<open>
  Modelled from the spec: \<^verbatim>\<open>room.other_client(id)\<close> is missing. It "resolves the other
  member of the room relative to" \<open>id\<close>: a member whose identifier differs from
  \<open>id\<close>, with its key, or \<open>None\<close> for the error result when there is none.
\<close>

definition room_other_client :: "room \<Rightarrow> string \<Rightarrow> (string \<times> client) option" where
  "room_other_client r client_id = find (\<lambda>kc. fst kc \<noteq> client_id) (clients r)"

text \<open>
  Modelled from the spec: \<^verbatim>\<open>room.remove(id)\<close> is missing. "Removes the client."
\<close>

definition room_remove :: "room \<Rightarrow> string \<Rightarrow> room" where
  "room_remove r client_id = r\<lparr>clients := AList.delete client_id (clients r)\<rparr>"

text \<open>
  Modelled from the spec: \<^verbatim>\<open>client.enqueue(msg)\<close> is missing. The buffer is an
  "ordered sequence" and the message is appended to it.
\<close>

definition client_enqueue :: "client \<Rightarrow> string \<Rightarrow> client" where
  "client_enqueue c message = c\<lparr>msgs := msgs c @ [message]\<rparr>"

text \<open>A field assignment through a \<^verbatim>\<open>*client\<close> that points into \<open>room.clients\<close>.\<close>

definition room_update_client :: "room \<Rightarrow> string \<Rightarrow> (client \<Rightarrow> client) \<Rightarrow> room" where
  "room_update_client r client_id f = r\<lparr>clients := AList.map_entry client_id f (clients r)\<rparr>"

subsection \<open>The store operations of collider.go\<close>

text \<open>
  \<^verbatim>\<open>addClientToRoom\<close> (lines 114-135). The result is the table, the named results
  \<^verbatim>\<open>is_initiator\<close>, \<^verbatim>\<open>messages\<close> and \<^verbatim>\<open>err\<close> (\<open>None\<close> is \<^verbatim>\<open>nil\<close>; an error carries the
  string given to \<^verbatim>\<open>errors.New\<close>). The outer \<open>None\<close> is the nil-pointer panic of
  \<^verbatim>\<open>other_client.msgs\<close> when \<^verbatim>\<open>room.other_client\<close> has returned its error, which the
  code ignores.
\<close>

definition addClientToRoom ::
  "roomTable \<Rightarrow> string \<Rightarrow> string \<Rightarrow> bool \<Rightarrow> (roomTable \<times> bool \<times> string list \<times> string option) option"
where
  "addClientToRoom c room_id client_id is_loopback =
     (let (c1, room) = roomTable_room c room_id;
          occupancy = length (clients room)
      in if occupancy \<ge> 2 then Some (c1, False, [], Some RESPONSE_ROOM_FULL)
         else if map_of (clients room) client_id \<noteq> None
           then Some (c1, False, [], Some RESPONSE_DUPLICATE_CLIENT)
         else if occupancy = 0 then
           (let room1 = room_client room client_id;
                room2 = (if is_loopback then room_client room1 LOOPBACK_CLIENT_ID else room1)
            in Some (set_room c1 room_id room2, True, [], None))
         else
           (case room_other_client room client_id of
              None \<Rightarrow> None
            | Some (other_id, other_client) \<Rightarrow>
                (let messages = msgs other_client;
                     room1 = room_client room client_id;
                     room2 = room_update_client room1 other_id (\<lambda>cl. cl\<lparr>msgs := []\<rparr>)
                 in Some (set_room c1 room_id room2, False, messages, None))))"

text \<open>
  \<^verbatim>\<open>removeClientFromRoom\<close> (lines 137-159). The result is the table and the error.
\<close>

definition removeClientFromRoom :: "roomTable \<Rightarrow> string \<Rightarrow> string \<Rightarrow> roomTable \<times> string option" where
  "removeClientFromRoom c room_id client_id =
     (if rooms c room_id = None then (c, Some RESPONSE_UNKNOWN_ROOM)
      else
        (let (c1, room) = roomTable_room c room_id
         in if map_of (clients room) client_id = None then (c1, Some RESPONSE_UNKNOWN_CLIENT)
            else
              (let room1 = room_remove room client_id;
                   room2 = (if map_of (clients room1) LOOPBACK_CLIENT_ID \<noteq> None
                            then room_remove room1 LOOPBACK_CLIENT_ID else room1)
               in if length (clients room2) > 0 then
                    (case room_other_client room2 client_id of
                       Some (other_id, cl) \<Rightarrow>
                         (set_room c1 room_id
                            (room_update_client room2 other_id (\<lambda>cl. cl\<lparr>is_initiator := True\<rparr>)),
                          None)
                     | None \<Rightarrow> (set_room c1 room_id room2, None))
                  else (c1\<lparr>rooms := (rooms c1)(room_id := None)\<rparr>, None))))"

text \<open>
  \<^verbatim>\<open>saveMessageFromClient\<close> (lines 161-183). The result is the table and the named
  results \<^verbatim>\<open>saved\<close> and \<^verbatim>\<open>err\<close>.
\<close>

definition saveMessageFromClient ::
  "roomTable \<Rightarrow> string \<Rightarrow> string \<Rightarrow> string \<Rightarrow> roomTable \<times> bool \<times> string option"
where
  "saveMessageFromClient c room_id client_id message =
     (if rooms c room_id = None then (c, False, Some RESPONSE_UNKNOWN_ROOM)
      else
        (let (c1, room) = roomTable_room c room_id
         in case map_of (clients room) client_id of
              None \<Rightarrow> (c1, False, Some RESPONSE_UNKNOWN_CLIENT)
            | Some client \<Rightarrow>
                if length (clients room) > 1 then (c1, False, None)
                else (set_room c1 room_id
                        (room_update_client room client_id (\<lambda>cl. client_enqueue cl message)),
                      True, None)))"

subsection \<open>The request/response front-end: POST /message\<close>

text \<open>
  What a handler does to its \<^verbatim>\<open>http.ResponseWriter\<close> and to the forwarding path is a
  list of outputs, in the order of the calls: \<open>HttpError\<close> is \<^verbatim>\<open>c.httpError\<close>
  (status 500 with the text, counted by the dashboard), \<open>MessageResponse\<close> is
  \<^verbatim>\<open>c.writeMessageResponse\<close> (the JSON \<^verbatim>\<open>{"result": ...}\<close>; encoding a string cannot
  fail), \<open>ForwardToCollider\<close> is the call of \<^verbatim>\<open>c.roomTable.send\<close> made by
  \<^verbatim>\<open>sendMessageToCollider\<close>.
\<close>

datatype http_out =
    HttpError string
  | MessageResponse string
  | ForwardToCollider string string string

text \<open>
  A request as \<^verbatim>\<open>httpMessageHandler\<close> reads it: \<^verbatim>\<open>r.URL.Path\<close> and the result of
  \<^verbatim>\<open>ioutil.ReadAll(r.Body)\<close> (\<open>Inl\<close> the text of the read error).
\<close>

record request =
  url_path :: string
  body :: "string + string"

text \<open>\<^verbatim>\<open>strings.Split(s, "/")\<close> of the Go library, for a separator of one character.\<close>

fun strings_Split :: "string \<Rightarrow> char \<Rightarrow> string list" where
  "strings_Split [] sep = [[]]"
| "strings_Split (x # xs) sep =
     (if x = sep then [] # strings_Split xs sep
      else (case strings_Split xs sep of
              [] \<Rightarrow> [[x]]
            | y # ys \<Rightarrow> (x # y) # ys))"

text \<open>\<^verbatim>\<open>html.EscapeString\<close> of the Go library.\<close>

definition html_EscapeString :: "string \<Rightarrow> string" where
  "html_EscapeString s =
     concat (map (\<lambda>ch. if ch = CHR ''&'' then ''&amp;''
                        else if ch = CHR 0x27 then ''&#39;''
                        else if ch = CHR ''<'' then ''&lt;''
                        else if ch = CHR ''>'' then ''&gt;''
                        else if ch = CHR 0x22 then ''&#34;''
                        else [ch]) s)"

text \<open>
  \<^verbatim>\<open>sendMessageToCollider\<close> (lines 185-192). \<^verbatim>\<open>roomTable.send\<close> is missing and is the
  parameter \<open>send\<close>: it takes the table, the room, the sender and the message and
  returns the table and its error.
\<close>

type_synonym store_send = "roomTable \<Rightarrow> string \<Rightarrow> string \<Rightarrow> string \<Rightarrow> roomTable \<times> string option"

definition sendMessageToCollider ::
  "store_send \<Rightarrow> roomTable \<Rightarrow> string \<Rightarrow> string \<Rightarrow> string \<Rightarrow> roomTable \<times> http_out list"
where
  "sendMessageToCollider send c room_id client_id message =
     (let (c1, err) = send c room_id client_id message
      in (c1, ForwardToCollider room_id client_id message #
              (case err of
                 Some e \<Rightarrow> [HttpError (''Failed to send the message: '' @ e)]
               | None \<Rightarrow> [MessageResponse RESPONSE_SUCCESS])))"

text \<open>
  \<^verbatim>\<open>httpMessageHandler\<close> (lines 301-335). After \<^verbatim>\<open>saveMessageFromClient\<close> the code
  writes the error, when there is one, and goes on to the test of \<^verbatim>\<open>saved\<close>: there
  is no \<^verbatim>\<open>return\<close> in the \<^verbatim>\<open>if err != nil\<close> block.
\<close>

definition httpMessageHandler :: "store_send \<Rightarrow> roomTable \<Rightarrow> request \<Rightarrow> roomTable \<times> http_out list" where
  "httpMessageHandler send c r =
     (let p = strings_Split (url_path r) CHR ''/''
      in if length p \<noteq> 4
         then (c, [HttpError (''Invalid path: '' @ html_EscapeString (url_path r))])
         else
           (let room_id = p ! 2; client_id = p ! 3
            in case body r of
                 Inl e \<Rightarrow> (c, [HttpError (''Failed to read request body: '' @ e)])
               | Inr message \<Rightarrow>
                   if message = [] then (c, [HttpError ''Empty request body''])
                   else
                     (let (c1, saved, err) = saveMessageFromClient c room_id client_id message;
                          out1 = (case err of Some e \<Rightarrow> [MessageResponse e] | None \<Rightarrow> [])
                      in if \<not> saved
                         then (let (c2, out2) = sendMessageToCollider send c1 room_id client_id message
                               in (c2, out1 @ out2))
                         else (c1, out1 @ [MessageResponse RESPONSE_SUCCESS]))))"

subsection \<open>The persistent-connection front-end: wsHandler\<close>

text \<open>
  Modelled from the spec: the struct \<^verbatim>\<open>wsClientMsg\<close> (its declaration is missing), the
  JSON document \<^verbatim>\<open>{"cmd", "roomid", "clientid", "msg"}\<close> of spec 6; \<^verbatim>\<open>wsHandler\<close> reads
  the fields \<^verbatim>\<open>Cmd\<close>, \<^verbatim>\<open>RoomID\<close>, \<^verbatim>\<open>ClientID\<close> and \<^verbatim>\<open>Msg\<close>.
\<close>

record wsClientMsg =
  Cmd :: string
  RoomID :: string
  ClientID :: string
  Msg :: string

text \<open>
  One turn of the loop reads one event: \<^verbatim>\<open>ws.SetReadDeadline\<close> fails, or
  \<^verbatim>\<open>websocket.JSON.Receive\<close> fails (\<^verbatim>\<open>"EOF"\<close> is the normal close), or a JSON document
  arrives. The variable \<^verbatim>\<open>msg\<close> is declared outside the loop and the decoder sets
  only the fields that the document has, so a document is four optional fields.
\<close>

datatype ws_event =
    SetReadDeadlineFails string
  | ReceiveFails string
  | Receive "string option" "string option" "string option" "string option"

definition json_into :: "wsClientMsg \<Rightarrow> string option \<Rightarrow> string option \<Rightarrow> string option \<Rightarrow> string option \<Rightarrow> wsClientMsg" where
  "json_into m cmd roomid clientid text =
     \<lparr>Cmd = (case cmd of Some x \<Rightarrow> x | None \<Rightarrow> Cmd m),
      RoomID = (case roomid of Some x \<Rightarrow> x | None \<Rightarrow> RoomID m),
      ClientID = (case clientid of Some x \<Rightarrow> x | None \<Rightarrow> ClientID m),
      Msg = (case text of Some x \<Rightarrow> x | None \<Rightarrow> Msg m)\<rparr>"

text \<open>
  What the session does, in order: \<open>WsError\<close> is \<^verbatim>\<open>c.wsError\<close> (the text sent to the
  peer and counted), the three \<open>Store\<close> outputs are the calls of
  \<^verbatim>\<open>roomTable.register\<close> (with its result), \<^verbatim>\<open>roomTable.send\<close> and
  \<^verbatim>\<open>roomTable.deregister\<close>, \<open>DashIncrWs\<close> is \<^verbatim>\<open>c.dash.incrWs\<close>, \<open>WsClose\<close> is
  \<^verbatim>\<open>ws.Close\<close>.
\<close>

datatype ws_out =
    WsError string
  | StoreRegister string string "string option"
  | DashIncrWs
  | StoreSend string string string
  | StoreDeregister string string
  | WsClose

text \<open>
  The local variables of \<^verbatim>\<open>wsHandler\<close>, the table, the stack of deferred
  \<^verbatim>\<open>deregister\<close> calls (arguments evaluated at the \<^verbatim>\<open>defer\<close> statement, last one
  first) and the outputs so far.
\<close>

record ws_state =
  ws_store :: roomTable
  ws_registered :: bool
  ws_rid :: string
  ws_cid :: string
  ws_msg :: wsClientMsg
  ws_deferred :: "(string \<times> string) list"
  ws_out :: "ws_out list"

datatype ws_status = Waiting | Closed

type_synonym store_register = "roomTable \<Rightarrow> string \<Rightarrow> string \<Rightarrow> conn \<Rightarrow> roomTable \<times> string option"

definition wsError :: "string \<Rightarrow> ws_state \<Rightarrow> ws_state" where
  "wsError text st = st\<lparr>ws_out := ws_out st @ [WsError text]\<rparr>"

definition ws_init :: "roomTable \<Rightarrow> ws_state" where
  "ws_init c =
     \<lparr>ws_store = c, ws_registered = False, ws_rid = [], ws_cid = [],
      ws_msg = \<lparr>Cmd = [], RoomID = [], ClientID = [], Msg = []\<rparr>,
      ws_deferred = [], ws_out = []\<rparr>"

text \<open>
  One turn of the loop of \<^verbatim>\<open>wsHandler\<close> (lines 439-490). \<^verbatim>\<open>roomTable.register\<close> and
  \<^verbatim>\<open>roomTable.send\<close> are missing and are the parameters \<open>reg\<close> and \<open>send\<close>. The
  boolean says whether the loop goes on: \<^verbatim>\<open>break loop\<close> and the \<^verbatim>\<open>break\<close> of the two
  read errors leave it; the \<^verbatim>\<open>break\<close> at the end of a \<^verbatim>\<open>case\<close>, also the one of
  \<^verbatim>\<open>default\<close>, leaves only the \<^verbatim>\<open>switch\<close>.
\<close>

definition ws_turn ::
  "store_register \<Rightarrow> store_send \<Rightarrow> conn \<Rightarrow> ws_state \<Rightarrow> ws_event \<Rightarrow> ws_state \<times> bool"
where
  "ws_turn reg send ws st ev =
     (case ev of
        SetReadDeadlineFails e \<Rightarrow> (wsError (''ws.SetReadDeadline error: '' @ e) st, False)
      | ReceiveFails e \<Rightarrow>
          (if e \<noteq> ''EOF'' then wsError (''websocket.JSON.Receive error: '' @ e) st else st, False)
      | Receive cmd roomid clientid text \<Rightarrow>
          (let m = json_into (ws_msg st) cmd roomid clientid text;
               st1 = st\<lparr>ws_msg := m\<rparr>
           in if Cmd m = ''register'' then
                (if ws_registered st1 then (wsError ''Duplicated register request'' st1, False)
                 else if RoomID m = [] \<or> ClientID m = [] then
                   (wsError (''Invalid register request: missing '' @ [CHR 0x27] @ ''clientid''
                             @ [CHR 0x27] @ '' or '' @ [CHR 0x27] @ ''roomid'' @ [CHR 0x27]) st1,
                    False)
                 else
                   (let (s1, err) = reg (ws_store st1) (RoomID m) (ClientID m) ws;
                        st2 = st1\<lparr>ws_store := s1,
                                  ws_out := ws_out st1 @ [StoreRegister (RoomID m) (ClientID m) err]\<rparr>
                    in case err of
                         Some e \<Rightarrow> (wsError e st2, False)
                       | None \<Rightarrow>
                           (st2\<lparr>ws_registered := True, ws_rid := RoomID m, ws_cid := ClientID m,
                                ws_deferred := (RoomID m, ClientID m) # ws_deferred st2,
                                ws_out := ws_out st2 @ [DashIncrWs]\<rparr>,
                            True)))
              else if Cmd m = ''send'' then
                (if \<not> ws_registered st1 then (wsError ''Client not registered'' st1, False)
                 else if Msg m = [] then
                   (wsError (''Invalid send request: missing '' @ [CHR 0x27] @ ''msg'' @ [CHR 0x27]) st1,
                    False)
                 else
                   (let (s1, err) = send (ws_store st1) (ws_rid st1) (ws_cid st1) (Msg m)
                    in (st1\<lparr>ws_store := s1,
                            ws_out := ws_out st1 @ [StoreSend (ws_rid st1) (ws_cid st1) (Msg m)]\<rparr>,
                        True)))
              else
                (wsError (''Invalid message: unexpected '' @ [CHR 0x27] @ ''cmd'' @ [CHR 0x27]) st1,
                 True)))"

text \<open>
  The loop over the events that arrive. When they are used up and the loop has not been
  left, the session is blocked in \<^verbatim>\<open>Receive\<close>: \<open>Waiting\<close>.
\<close>

fun wsLoop ::
  "store_register \<Rightarrow> store_send \<Rightarrow> conn \<Rightarrow> ws_state \<Rightarrow> ws_event list \<Rightarrow> ws_state \<times> ws_status"
where
  "wsLoop reg send ws st [] = (st, Waiting)"
| "wsLoop reg send ws st (ev # evs) =
     (case ws_turn reg send ws st ev of
        (st1, True) \<Rightarrow> wsLoop reg send ws st1 evs
      | (st1, False) \<Rightarrow> (st1, Closed))"

text \<open>
  Modelled from the spec: \<^verbatim>\<open>roomTable.deregister(rid, cid)\<close> is missing. Spec 4.1,
  \<^verbatim>\<open>unbindConnection\<close>: it clears the live-connection reference of that client; "the
  client/room membership itself is left intact" (spec 4.2).
\<close>

definition roomTable_deregister :: "roomTable \<Rightarrow> string \<Rightarrow> string \<Rightarrow> roomTable" where
  "roomTable_deregister rt room_id client_id =
     (case rooms rt room_id of
        None \<Rightarrow> rt
      | Some r \<Rightarrow> set_room rt room_id (room_update_client r client_id (\<lambda>cl. cl\<lparr>conn := None\<rparr>)))"

text \<open>The deferred calls run when the function returns, the last deferred first.\<close>

fun run_deferred :: "roomTable \<Rightarrow> (string \<times> string) list \<Rightarrow> roomTable \<times> ws_out list" where
  "run_deferred c [] = (c, [])"
| "run_deferred c ((room_id, client_id) # ds) =
     (let (c1, outs) = run_deferred (roomTable_deregister c room_id client_id) ds
      in (c1, StoreDeregister room_id client_id # outs))"

text \<open>
  \<^verbatim>\<open>wsHandler\<close> (lines 432-493): the loop from the initial variables, then
  \<^verbatim>\<open>ws.Close()\<close>, then the deferred calls. A session that is still waiting has done
  neither.
\<close>

definition wsHandler ::
  "store_register \<Rightarrow> store_send \<Rightarrow> conn \<Rightarrow> roomTable \<Rightarrow> ws_event list \<Rightarrow> roomTable \<times> ws_out list \<times> ws_status"
where
  "wsHandler reg send ws c evs =
     (case wsLoop reg send ws (ws_init c) evs of
        (st, Waiting) \<Rightarrow> (ws_store st, ws_out st, Waiting)
      | (st, Closed) \<Rightarrow>
          (let (c1, outs) = run_deferred (ws_store st) (ws_deferred st)
           in (c1, ws_out st @ [WsClose] @ outs, Closed)))"

text \<open>
  Modelled from the spec: \<^verbatim>\<open>roomTable.register(rid, cid, ws)\<close> is missing. Spec 4.1 and
  4.2: the live-connection reference is bound "for an existing or newly created
  client"; the call fails when the client is already bound to a live connection, and a
  room holds at most two members. No theorem below depends on this definition or on
  the next one: the theorems about \<open>wsHandler\<close> hold for every \<open>reg\<close> and \<open>send\<close>;
  the two serve as the concrete store at which the theorems are instantiated.
\<close>

definition roomTable_register :: store_register where
  "roomTable_register rt room_id client_id ws =
     (let (rt1, r) = roomTable_room rt room_id
      in case map_of (clients r) client_id of
           Some cl \<Rightarrow>
             (if conn cl \<noteq> None then (rt1, Some RESPONSE_DUPLICATE_CLIENT)
              else (set_room rt1 room_id
                      (room_update_client r client_id (\<lambda>cl. cl\<lparr>conn := Some ws\<rparr>)), None))
         | None \<Rightarrow>
             (if length (clients r) \<ge> 2 then (rt1, Some RESPONSE_ROOM_FULL)
              else (set_room rt1 room_id
                      (room_update_client (room_client r client_id) client_id
                         (\<lambda>cl. cl\<lparr>conn := Some ws\<rparr>)), None)))"

text \<open>
  Modelled from the spec: \<^verbatim>\<open>roomTable.send(rid, cid, msg)\<close> is missing. Spec 4.1,
  \<^verbatim>\<open>deliverOrBuffer\<close>: it "resolves the other member of the room relative to" the
  sender; "if that member has a live connection, writes the message directly to it;
  otherwise appends to that member's buffer". A message written to a connection leaves
  the table as it is. The spec does not say what happens without a room or without
  another member; here the call then fails and changes nothing.
\<close>

definition roomTable_send :: store_send where
  "roomTable_send rt room_id client_id message =
     (case rooms rt room_id of
        None \<Rightarrow> (rt, Some RESPONSE_UNKNOWN_ROOM)
      | Some r \<Rightarrow>
          (case room_other_client r client_id of
             None \<Rightarrow> (rt, Some RESPONSE_UNKNOWN_CLIENT)
           | Some (other_id, other) \<Rightarrow>
               (if conn other \<noteq> None then (rt, None)
                else (set_room rt room_id
                        (room_update_client r other_id (\<lambda>cl. client_enqueue cl message)), None))))"

subsection \<open>Sequences of store operations, and what is observed of a table\<close>

datatype store_op =
    AddClient string string bool
  | RemoveClient string string

text \<open>
  Running a sequence of \<^verbatim>\<open>addClientToRoom\<close> and \<^verbatim>\<open>removeClientFromRoom\<close> calls, their
  results dropped; \<open>None\<close> when a call panics.
\<close>

fun run_ops :: "roomTable \<Rightarrow> store_op list \<Rightarrow> roomTable option" where
  "run_ops c [] = Some c"
| "run_ops c (AddClient room_id client_id is_loopback # ops) =
     (case addClientToRoom c room_id client_id is_loopback of
        None \<Rightarrow> None
      | Some (c1, results) \<Rightarrow> run_ops c1 ops)"
| "run_ops c (RemoveClient room_id client_id # ops) =
     run_ops (fst (removeClientFromRoom c room_id client_id)) ops"

text \<open>The identifiers of the members of a room, \<open>None\<close> for a room that is not in the table.\<close>

definition members :: "roomTable \<Rightarrow> string \<Rightarrow> string list option" where
  "members c room_id = map_option (\<lambda>r. map fst (clients r)) (rooms c room_id)"

text \<open>The live-connection reference of a client, \<open>None\<close> also when there is no such client.\<close>

definition client_conn :: "roomTable \<Rightarrow> string \<Rightarrow> string \<Rightarrow> conn option" where
  "client_conn c room_id client_id =
     (case rooms c room_id of
        None \<Rightarrow> None
      | Some r \<Rightarrow> (case map_of (clients r) client_id of None \<Rightarrow> None | Some cl \<Rightarrow> conn cl))"

text \<open>
  In a list of session outputs, every \<open>StoreSend\<close> comes after a \<open>StoreRegister\<close>
  whose result is \<^verbatim>\<open>nil\<close>; the flag says whether one has been seen.
\<close>

fun sends_guarded :: "bool \<Rightarrow> ws_out list \<Rightarrow> bool" where
  "sends_guarded seen [] = True"
| "sends_guarded seen (StoreRegister room_id client_id None # outs) = sends_guarded True outs"
| "sends_guarded seen (StoreSend room_id client_id text # outs) = (seen \<and> sends_guarded seen outs)"
| "sends_guarded seen (x # outs) = sends_guarded seen outs"

text \<open>
  A client posting several messages, one \<^verbatim>\<open>saveMessageFromClient\<close> call after the
  other, the results dropped.
\<close>

fun saveMessages :: "roomTable \<Rightarrow> string \<Rightarrow> string \<Rightarrow> string list \<Rightarrow> roomTable" where
  "saveMessages c room_id client_id [] = c"
| "saveMessages c room_id client_id (m # ms) =
     saveMessages (fst (saveMessageFromClient c room_id client_id m)) room_id client_id ms"

subsection \<open>Example tables\<close>

text \<open>The initiator A, who has posted two messages, and the second client B.\<close>

definition clientA :: client where
  "clientA = \<lparr>is_initiator = True, msgs = [''offer'', ''candidate''], conn = None\<rparr>"

definition clientB :: client where
  "clientB = \<lparr>is_initiator = False, msgs = [], conn = None\<rparr>"

text \<open>Room R1 with the single member A.\<close>

definition table_one :: roomTable where
  "table_one = \<lparr>rooms = [''R1'' \<mapsto> \<lparr>clients = [(''A'', clientA)]\<rparr>]\<rparr>"

text \<open>Room R1 with the two members A and B.\<close>

definition table_two :: roomTable where
  "table_two =
     \<lparr>rooms = [''R1'' \<mapsto> \<lparr>clients = [(''A'', clientA\<lparr>msgs := []\<rparr>), (''B'', clientB)]\<rparr>]\<rparr>"

text \<open>Room R1 with the single member B, promoted to initiator.\<close>

definition table_B :: roomTable where
  "table_B = \<lparr>rooms = [''R1'' \<mapsto> \<lparr>clients = [(''B'', clientB\<lparr>is_initiator := True\<rparr>)]\<rparr>]\<rparr>"

subsection \<open>The invariant of the table\<close>

text \<open>
  Every room of the table is a map (its keys are distinct) with one or two members.
\<close>

definition table_inv :: "roomTable \<Rightarrow> bool" where
  "table_inv c = (\<forall>room_id r. rooms c room_id = Some r \<longrightarrow>
      wf_room r \<and> (length (clients r) = 1 \<or> length (clients r) = 2))"

subsection \<open>Notions used to state the session properties\<close>

text \<open>A list of session outputs holds a \<open>StoreRegister\<close> whose result is \<^verbatim>\<open>nil\<close>.\<close>

definition has_reg :: "ws_out list \<Rightarrow> bool" where
  "has_reg outs = (\<exists>room_id client_id. StoreRegister room_id client_id None \<in> set outs)"

text \<open>
  What holds of the variables of \<^verbatim>\<open>wsHandler\<close> after every turn of its loop: no
  \<open>StoreSend\<close> without an earlier successful \<open>StoreRegister\<close>; a registered session
  has registered as \<open>(ws_rid, ws_cid)\<close> and has deferred exactly one \<^verbatim>\<open>deregister\<close>, for
  that pair; a session that is not registered has deferred none.
\<close>

definition ws_ok :: "ws_state \<Rightarrow> bool" where
  "ws_ok st =
     (sends_guarded False (ws_out st) \<and>
      (ws_registered st \<longrightarrow> StoreRegister (ws_rid st) (ws_cid st) None \<in> set (ws_out st)) \<and>
      ws_deferred st = (if ws_registered st then [(ws_rid st, ws_cid st)] else []))"

text \<open>
  A session on connection 7: it registers as A in R1, sends a message, then registers
  again, which ends it.
\<close>

definition ws_example :: "ws_event list" where
  "ws_example =
     [Receive (Some ''register'') (Some ''R1'') (Some ''A'') None,
      Receive (Some ''send'') None None (Some ''hi''),
      Receive (Some ''register'') None None None]"

text \<open>The variables of that session when its loop is left.\<close>

definition ws_example_state :: ws_state where
  "ws_example_state =
     \<lparr>ws_store = \<lparr>rooms = [''R1'' \<mapsto> \<lparr>clients = [(''A'', clientA\<lparr>conn := Some 7\<rparr>)]\<rparr>]\<rparr>,
      ws_registered = True, ws_rid = ''R1'', ws_cid = ''A'',
      ws_msg = \<lparr>Cmd = ''register'', RoomID = ''R1'', ClientID = ''A'', Msg = ''hi''\<rparr>,
      ws_deferred = [(''R1'', ''A'')],
      ws_out = [StoreRegister ''R1'' ''A'' None, DashIncrWs, StoreSend ''R1'' ''A'' ''hi'',
                WsError ''Duplicated register request'']\<rparr>"

text \<open>Room R1 after the loopback join of 12345678 into the empty table.\<close>

definition table_loopback :: roomTable where
  "table_loopback =
     \<lparr>rooms = [''R1'' \<mapsto> \<lparr>clients =
        [(''12345678'', \<lparr>is_initiator = True, msgs = [], conn = None\<rparr>),
         (LOOPBACK_CLIENT_ID, \<lparr>is_initiator = False, msgs = [], conn = None\<rparr>)]\<rparr>]\<rparr>"

subsection \<open>Basic facts about the helpers\<close>

lemma roomTable_room_present:
  "rooms c room_id = Some r \<Longrightarrow> roomTable_room c room_id = (c, r)"
  by (simp add: roomTable_room_def)

lemma roomTable_room_absent:
  "rooms c room_id = None \<Longrightarrow>
   roomTable_room c room_id = (c\<lparr>rooms := (rooms c)(room_id \<mapsto> \<lparr>clients = []\<rparr>)\<rparr>, \<lparr>clients = []\<rparr>)"
  by (simp add: roomTable_room_def)

lemma room_clients_update: "(r::room)\<lparr>clients := cs\<rparr> = \<lparr>clients = cs\<rparr>"
  by (cases r) simp

lemma set_room_same: "rooms c room_id = Some r \<Longrightarrow> set_room c room_id r = c"
  by (simp add: set_room_def map_upd_triv)

lemma rooms_set_room: "rooms (set_room c room_id r) = (rooms c)(room_id \<mapsto> r)"
  by (simp add: set_room_def)

lemma set_room_twice: "set_room (set_room c room_id r) room_id r' = set_room c room_id r'"
  by (simp add: set_room_def)

lemma rooms_table_one: "rooms table_one ''R1'' = Some \<lparr>clients = [(''A'', clientA)]\<rparr>"
  by (simp add: table_one_def)

lemma rooms_table_two:
  "rooms table_two ''R1'' = Some \<lparr>clients = [(''A'', clientA\<lparr>msgs := []\<rparr>), (''B'', clientB)]\<rparr>"
  by (simp add: table_two_def)

subsection \<open>Joining a room that has one member\<close>

lemma saveMessage_single:
  assumes "rooms c room_id = Some r" and "clients r = [(client_id, cl)]"
  shows "saveMessageFromClient c room_id client_id m =
           (set_room c room_id \<lparr>clients = [(client_id, cl\<lparr>msgs := msgs cl @ [m]\<rparr>)]\<rparr>, True, None)"
  using assms
  by (simp add: saveMessageFromClient_def roomTable_room_present room_update_client_def
      client_enqueue_def room_clients_update)

lemma saveMessages_single:
  assumes "rooms c room_id = Some r" and "clients r = [(client_id, cl)]"
  shows "saveMessages c room_id client_id ms =
           set_room c room_id \<lparr>clients = [(client_id, cl\<lparr>msgs := msgs cl @ ms\<rparr>)]\<rparr>"
  using assms
proof (induction ms arbitrary: c r cl)
  case Nil
  then have "r = \<lparr>clients = [(client_id, cl)]\<rparr>" by simp
  with Nil show ?case by (simp add: set_room_same)
next
  case (Cons m ms)
  let ?cl1 = "cl\<lparr>msgs := msgs cl @ [m]\<rparr>"
  let ?c1 = "set_room c room_id \<lparr>clients = [(client_id, ?cl1)]\<rparr>"
  have step: "saveMessageFromClient c room_id client_id m = (?c1, True, None)"
    using Cons.prems by (rule saveMessage_single)
  have "saveMessages ?c1 room_id client_id ms =
          set_room ?c1 room_id \<lparr>clients = [(client_id, ?cl1\<lparr>msgs := msgs ?cl1 @ ms\<rparr>)]\<rparr>"
    by (rule Cons.IH [where r = "\<lparr>clients = [(client_id, ?cl1)]\<rparr>"])
       (simp_all add: rooms_set_room)
  with step show ?case by (simp add: set_room_twice)
qed

lemma addClient_second:
  assumes "rooms c room_id = Some r" and "clients r = [(other_id, other)]"
      and "client_id \<noteq> other_id"
  shows "addClientToRoom c room_id client_id is_loopback =
           Some (set_room c room_id
                   \<lparr>clients = [(other_id, other\<lparr>msgs := []\<rparr>),
                               (client_id, \<lparr>is_initiator = False, msgs = [], conn = None\<rparr>)]\<rparr>,
                 False, msgs other, None)"
  using assms
  by (simp add: addClientToRoom_def roomTable_room_present room_other_client_def
      room_client_def room_update_client_def room_clients_update)

text \<open>
  Claim C1. In a room whose only member is \<open>other_id\<close>, \<^verbatim>\<open>addClientToRoom\<close> for another
  identifier succeeds (\<^verbatim>\<open>err\<close> is \<^verbatim>\<open>nil\<close>): the room then holds the old member and the
  new client, the new client is not the initiator (the result \<^verbatim>\<open>is_initiator\<close> and the
  client's flag are both false), the returned messages are exactly the old member's
  buffer, and that buffer is empty afterwards. The buffer is in the order of the
  \<^verbatim>\<open>saveMessageFromClient\<close> calls: after the member has posted \<open>ms\<close> on top of its
  buffer, the joiner receives the buffer followed by \<open>ms\<close>.
\<close>

theorem addClientToRoom_second_member:
  assumes "rooms c room_id = Some r" and "clients r = [(other_id, other)]"
      and "client_id \<noteq> other_id"
  shows "addClientToRoom c room_id client_id is_loopback =
           Some (set_room c room_id
                   \<lparr>clients = [(other_id, other\<lparr>msgs := []\<rparr>),
                               (client_id, \<lparr>is_initiator = False, msgs = [], conn = None\<rparr>)]\<rparr>,
                 False, msgs other, None)
       \<and> addClientToRoom (saveMessages c room_id other_id ms) room_id client_id is_loopback =
           Some (set_room c room_id
                   \<lparr>clients = [(other_id, other\<lparr>msgs := []\<rparr>),
                               (client_id, \<lparr>is_initiator = False, msgs = [], conn = None\<rparr>)]\<rparr>,
                 False, msgs other @ ms, None)"
proof
  show "addClientToRoom c room_id client_id is_loopback =
           Some (set_room c room_id
                   \<lparr>clients = [(other_id, other\<lparr>msgs := []\<rparr>),
                               (client_id, \<lparr>is_initiator = False, msgs = [], conn = None\<rparr>)]\<rparr>,
                 False, msgs other, None)"
    using assms by (rule addClient_second)
next
  let ?o = "other\<lparr>msgs := msgs other @ ms\<rparr>"
  let ?c1 = "set_room c room_id \<lparr>clients = [(other_id, ?o)]\<rparr>"
  have saved: "saveMessages c room_id other_id ms = ?c1"
    using assms(1,2) by (rule saveMessages_single)
  have "addClientToRoom ?c1 room_id client_id is_loopback =
          Some (set_room ?c1 room_id
                   \<lparr>clients = [(other_id, ?o\<lparr>msgs := []\<rparr>),
                               (client_id, \<lparr>is_initiator = False, msgs = [], conn = None\<rparr>)]\<rparr>,
                 False, msgs ?o, None)"
    by (rule addClient_second [where r = "\<lparr>clients = [(other_id, ?o)]\<rparr>"])
       (simp_all add: rooms_set_room assms(3))
  with saved show "addClientToRoom (saveMessages c room_id other_id ms) room_id client_id is_loopback =
           Some (set_room c room_id
                   \<lparr>clients = [(other_id, other\<lparr>msgs := []\<rparr>),
                               (client_id, \<lparr>is_initiator = False, msgs = [], conn = None\<rparr>)]\<rparr>,
                 False, msgs other @ ms, None)"
    by (simp add: set_room_twice)
qed

theorem addClientToRoom_second_member_witness:
  "rooms table_one ''R1'' = Some \<lparr>clients = [(''A'', clientA)]\<rparr> \<and> ''B'' \<noteq> ''A'' \<and>
   addClientToRoom table_one ''R1'' ''B'' False =
     Some (table_two, False, [''offer'', ''candidate''], None) \<and>
   addClientToRoom (saveMessages table_one ''R1'' ''A'' [''bye'']) ''R1'' ''B'' False =
     Some (table_two, False, [''offer'', ''candidate'', ''bye''], None)"
proof -
  have h1: "rooms table_one ''R1'' = Some \<lparr>clients = [(''A'', clientA)]\<rparr>"
    by (rule rooms_table_one)
  have h2: "clients \<lparr>clients = [(''A'', clientA)]\<rparr> = [(''A'', clientA)]" by simp
  have h3: "''B'' \<noteq> ''A''" by simp
  have t: "set_room table_one ''R1''
             \<lparr>clients = [(''A'', clientA\<lparr>msgs := []\<rparr>),
                         (''B'', \<lparr>is_initiator = False, msgs = [], conn = None\<rparr>)]\<rparr> = table_two"
    by (simp add: set_room_def table_one_def table_two_def clientB_def)
  have m: "msgs clientA = [''offer'', ''candidate'']" by (simp add: clientA_def)
  show ?thesis
    using addClientToRoom_second_member [OF h1 h2 h3, of False "[''bye'']"] h1 h3
    by (simp add: t m)
qed

subsection \<open>Posting a message\<close>

text \<open>
  Claim C2. For a room of the table and a member of it, \<^verbatim>\<open>saveMessageFromClient\<close> does
  one of two things. With fewer than 2 members in the room the message is appended to
  the sender's own buffer, \<^verbatim>\<open>saved\<close> is true and there is no error (the sender is then the
  only member, so no other buffer exists). With 2 members \<^verbatim>\<open>saved\<close> is false, there is
  no error and the table, hence every buffer, is unchanged.
\<close>

theorem saveMessageFromClient_buffers:
  assumes "rooms c room_id = Some r" and "map_of (clients r) client_id = Some cl"
  shows "(length (clients r) < 2 \<longrightarrow>
            saveMessageFromClient c room_id client_id message =
              (set_room c room_id \<lparr>clients = [(client_id, cl\<lparr>msgs := msgs cl @ [message]\<rparr>)]\<rparr>,
               True, None))
       \<and> (length (clients r) = 2 \<longrightarrow>
            saveMessageFromClient c room_id client_id message = (c, False, None))"
proof (intro conjI impI)
  assume "length (clients r) < 2"
  with assms(2) have "clients r = [(client_id, cl)]"
    by (cases "clients r") (auto split: if_splits)
  with assms(1) show "saveMessageFromClient c room_id client_id message =
              (set_room c room_id \<lparr>clients = [(client_id, cl\<lparr>msgs := msgs cl @ [message]\<rparr>)]\<rparr>,
               True, None)"
    by (rule saveMessage_single)
next
  assume "length (clients r) = 2"
  with assms show "saveMessageFromClient c room_id client_id message = (c, False, None)"
    by (simp add: saveMessageFromClient_def roomTable_room_present)
qed

theorem saveMessageFromClient_buffers_witness:
  "rooms table_one ''R1'' = Some \<lparr>clients = [(''A'', clientA)]\<rparr> \<and>
   map_of [(''A'', clientA)] ''A'' = Some clientA \<and>
   saveMessageFromClient table_one ''R1'' ''A'' ''bye'' =
     (set_room table_one ''R1''
        \<lparr>clients = [(''A'', clientA\<lparr>msgs := [''offer'', ''candidate'', ''bye'']\<rparr>)]\<rparr>, True, None) \<and>
   rooms table_two ''R1'' = Some \<lparr>clients = [(''A'', clientA\<lparr>msgs := []\<rparr>), (''B'', clientB)]\<rparr> \<and>
   map_of [(''A'', clientA\<lparr>msgs := []\<rparr>), (''B'', clientB)] ''B'' = Some clientB \<and>
   saveMessageFromClient table_two ''R1'' ''B'' ''answer'' = (table_two, False, None)"
proof -
  have a1: "rooms table_one ''R1'' = Some \<lparr>clients = [(''A'', clientA)]\<rparr>"
    by (rule rooms_table_one)
  have a2: "map_of (clients \<lparr>clients = [(''A'', clientA)]\<rparr>) ''A'' = Some clientA" by simp
  have b1: "rooms table_two ''R1'' =
              Some \<lparr>clients = [(''A'', clientA\<lparr>msgs := []\<rparr>), (''B'', clientB)]\<rparr>"
    by (rule rooms_table_two)
  have b2: "map_of (clients \<lparr>clients = [(''A'', clientA\<lparr>msgs := []\<rparr>), (''B'', clientB)]\<rparr>) ''B''
              = Some clientB" by simp
  have m: "msgs clientA = [''offer'', ''candidate'']" by (simp add: clientA_def)
  show ?thesis
    using saveMessageFromClient_buffers [OF a1 a2, of "''bye''"]
          saveMessageFromClient_buffers [OF b1 b2, of "''answer''"] a1 b1
    by (simp add: m)
qed

subsection \<open>Joining a full room, joining twice\<close>

lemma addClient_full:
  assumes "rooms c room_id = Some r" and "2 \<le> length (clients r)"
  shows "addClientToRoom c room_id client_id is_loopback =
           Some (c, False, [], Some RESPONSE_ROOM_FULL)"
  using assms by (simp add: addClientToRoom_def roomTable_room_present)

text \<open>
  Claim C3. In a room that has 2 members, \<^verbatim>\<open>addClientToRoom\<close> fails with
  \<^verbatim>\<open>RESPONSE_ROOM_FULL\<close> for every client identifier and every loopback flag, and the
  table it leaves is the table it was given: the membership and the buffers of every
  room are unchanged.
\<close>

theorem addClientToRoom_full:
  assumes "rooms c room_id = Some r" and "length (clients r) = 2"
  shows "addClientToRoom c room_id client_id is_loopback =
           Some (c, False, [], Some RESPONSE_ROOM_FULL)"
  using assms by (simp add: addClient_full)

theorem addClientToRoom_full_witness:
  "rooms table_two ''R1'' = Some \<lparr>clients = [(''A'', clientA\<lparr>msgs := []\<rparr>), (''B'', clientB)]\<rparr> \<and>
   length [(''A'', clientA\<lparr>msgs := []\<rparr>), (''B'', clientB)] = 2 \<and>
   addClientToRoom table_two ''R1'' ''C'' False = Some (table_two, False, [], Some ''FULL'')"
proof -
  have h1: "rooms table_two ''R1'' =
              Some \<lparr>clients = [(''A'', clientA\<lparr>msgs := []\<rparr>), (''B'', clientB)]\<rparr>"
    by (rule rooms_table_two)
  have h2: "length (clients \<lparr>clients = [(''A'', clientA\<lparr>msgs := []\<rparr>), (''B'', clientB)]\<rparr>) = 2"
    by simp
  show ?thesis
    using addClientToRoom_full [OF h1 h2, of "''C''" False] h1
    by (simp add: RESPONSE_ROOM_FULL_def)
qed

text \<open>
  Claim C4, as stated, fails: A is a member of the two-member room R1 of \<open>table_two\<close>,
  and joining as A fails with \<^verbatim>\<open>RESPONSE_ROOM_FULL\<close>, not with
  \<^verbatim>\<open>RESPONSE_DUPLICATE_CLIENT\<close>, because the occupancy test comes first.
\<close>

theorem addClientToRoom_duplicate_in_full_room:
  "map_of (clients (the (rooms table_two ''R1''))) ''A'' \<noteq> None \<and>
   addClientToRoom table_two ''R1'' ''A'' False = Some (table_two, False, [], Some RESPONSE_ROOM_FULL) \<and>
   RESPONSE_ROOM_FULL \<noteq> RESPONSE_DUPLICATE_CLIENT"
proof -
  have "addClientToRoom table_two ''R1'' ''A'' False =
          Some (table_two, False, [], Some RESPONSE_ROOM_FULL)"
    by (rule addClient_full [OF rooms_table_two]) simp
  then show ?thesis
    by (simp add: rooms_table_two RESPONSE_ROOM_FULL_def RESPONSE_DUPLICATE_CLIENT_def)
qed

text \<open>
  Claim C4, amended. In a room that has fewer than 2 members, \<^verbatim>\<open>addClientToRoom\<close> with
  the identifier of a member fails with \<^verbatim>\<open>RESPONSE_DUPLICATE_CLIENT\<close> and leaves the table
  as it was given.
\<close>

theorem addClientToRoom_duplicate:
  assumes "rooms c room_id = Some r" and "map_of (clients r) client_id \<noteq> None"
      and "length (clients r) < 2"
  shows "addClientToRoom c room_id client_id is_loopback =
           Some (c, False, [], Some RESPONSE_DUPLICATE_CLIENT)"
  using assms by (auto simp add: addClientToRoom_def roomTable_room_present)

theorem addClientToRoom_duplicate_witness:
  "rooms table_one ''R1'' = Some \<lparr>clients = [(''A'', clientA)]\<rparr> \<and>
   map_of [(''A'', clientA)] ''A'' \<noteq> None \<and> length [(''A'', clientA)] < 2 \<and>
   addClientToRoom table_one ''R1'' ''A'' True =
     Some (table_one, False, [], Some ''DUPLICATE_CLIENT'')"
proof -
  have h1: "rooms table_one ''R1'' = Some \<lparr>clients = [(''A'', clientA)]\<rparr>"
    by (rule rooms_table_one)
  have h2: "map_of (clients \<lparr>clients = [(''A'', clientA)]\<rparr>) ''A'' \<noteq> None" by simp
  have h3: "length (clients \<lparr>clients = [(''A'', clientA)]\<rparr>) < 2" by simp
  show ?thesis
    using addClientToRoom_duplicate [OF h1 h2 h3, of True] h1
    by (simp add: RESPONSE_DUPLICATE_CLIENT_def)
qed

subsection \<open>Leaving a room\<close>

lemma find_all: "\<forall>x\<in>set xs. P x \<Longrightarrow> find P xs = (case xs of [] \<Rightarrow> None | x # ys \<Rightarrow> Some x)"
  by (cases xs) auto

lemma delete_delete_filter:
  "AList.delete b (AList.delete a cs) = filter (\<lambda>kc. fst kc \<noteq> a \<and> fst kc \<noteq> b) cs"
  by (induction cs) (auto simp: AList.delete_eq)

lemma clients_after_remove:
  "clients (if map_of (clients (room_remove r a)) b \<noteq> None
            then room_remove (room_remove r a) b else room_remove r a)
   = filter (\<lambda>kc. fst kc \<noteq> a \<and> fst kc \<noteq> b) (clients r)"
proof -
  have "map_of (AList.delete a (clients r)) b = None \<Longrightarrow>
        AList.delete b (AList.delete a (clients r)) = AList.delete a (clients r)"
    by (simp add: map_of_eq_None_iff)
  then show ?thesis
    by (auto simp: room_remove_def delete_delete_filter [symmetric])
qed

lemma removeClient_present:
  assumes "rooms c room_id = Some r" and "map_of (clients r) client_id \<noteq> None"
  shows "removeClientFromRoom c room_id client_id =
           (case filter (\<lambda>kc. fst kc \<noteq> client_id \<and> fst kc \<noteq> LOOPBACK_CLIENT_ID) (clients r) of
              [] \<Rightarrow> (c\<lparr>rooms := (rooms c)(room_id := None)\<rparr>, None)
            | (k, cl) # rest \<Rightarrow>
                (set_room c room_id \<lparr>clients = (k, cl\<lparr>is_initiator := True\<rparr>) # rest\<rparr>, None))"
proof -
  let ?rest = "filter (\<lambda>kc. fst kc \<noteq> client_id \<and> fst kc \<noteq> LOOPBACK_CLIENT_ID) (clients r)"
  let ?room2 = "if map_of (clients (room_remove r client_id)) LOOPBACK_CLIENT_ID \<noteq> None
            then room_remove (room_remove r client_id) LOOPBACK_CLIENT_ID else room_remove r client_id"
  have cl2: "clients ?room2 = ?rest" by (rule clients_after_remove)
  have r2: "?room2 = \<lparr>clients = ?rest\<rparr>"
    using cl2 by (cases ?room2) simp
  have other: "room_other_client \<lparr>clients = ?rest\<rparr> client_id
                 = (case ?rest of [] \<Rightarrow> None | x # ys \<Rightarrow> Some x)"
    unfolding room_other_client_def by (simp add: find_all)
  show ?thesis
  proof (cases ?rest)
    case Nil
    with assms r2 show ?thesis
      by (simp add: removeClientFromRoom_def roomTable_room_present Let_def)
  next
    case (Cons x ys)
    obtain k cl where x: "x = (k, cl)" by (cases x)
    with assms r2 other Cons show ?thesis
      by (simp add: removeClientFromRoom_def roomTable_room_present Let_def
          room_update_client_def room_clients_update)
  qed
qed


text \<open>
  Claim C6. \<^verbatim>\<open>removeClientFromRoom\<close> fails with \<^verbatim>\<open>RESPONSE_UNKNOWN_ROOM\<close> when the room is
  not in the table and with \<^verbatim>\<open>RESPONSE_UNKNOWN_CLIENT\<close> when the client is not a member
  of the room, and the table is unchanged in both cases. Otherwise it succeeds, the
  other rooms are unchanged, and the members of the room are the old members without
  the client and without the loopback slot; when none is left the room is no longer
  in the table, and when exactly one is left the room holds that member with its role
  flag set to initiator and nothing else about it changed.
\<close>

theorem removeClientFromRoom_effect:
  "(rooms c room_id = None \<longrightarrow>
      removeClientFromRoom c room_id client_id = (c, Some RESPONSE_UNKNOWN_ROOM))
 \<and> (\<forall>r. rooms c room_id = Some r \<and> map_of (clients r) client_id = None \<longrightarrow>
      removeClientFromRoom c room_id client_id = (c, Some RESPONSE_UNKNOWN_CLIENT))
 \<and> (\<forall>r. rooms c room_id = Some r \<and> map_of (clients r) client_id \<noteq> None \<longrightarrow>
      (\<exists>c'. removeClientFromRoom c room_id client_id = (c', None)
         \<and> (\<forall>other. other \<noteq> room_id \<longrightarrow> rooms c' other = rooms c other)
         \<and> members c' room_id =
             (let rest = filter (\<lambda>k. k \<noteq> client_id \<and> k \<noteq> LOOPBACK_CLIENT_ID) (map fst (clients r))
              in if rest = [] then None else Some rest)
         \<and> (\<forall>k cl. filter (\<lambda>kc. fst kc \<noteq> client_id \<and> fst kc \<noteq> LOOPBACK_CLIENT_ID) (clients r)
                      = [(k, cl)] \<longrightarrow>
               rooms c' room_id = Some \<lparr>clients = [(k, cl\<lparr>is_initiator := True\<rparr>)]\<rparr>)))"
proof (intro conjI allI impI)
  assume "rooms c room_id = None"
  then show "removeClientFromRoom c room_id client_id = (c, Some RESPONSE_UNKNOWN_ROOM)"
    by (simp add: removeClientFromRoom_def)
next
  fix r assume "rooms c room_id = Some r \<and> map_of (clients r) client_id = None"
  then show "removeClientFromRoom c room_id client_id = (c, Some RESPONSE_UNKNOWN_CLIENT)"
    by (simp add: removeClientFromRoom_def roomTable_room_present)
next
  fix r assume a: "rooms c room_id = Some r \<and> map_of (clients r) client_id \<noteq> None"
  let ?rest = "filter (\<lambda>kc. fst kc \<noteq> client_id \<and> fst kc \<noteq> LOOPBACK_CLIENT_ID) (clients r)"
  have keys: "map fst ?rest =
                filter (\<lambda>k. k \<noteq> client_id \<and> k \<noteq> LOOPBACK_CLIENT_ID) (map fst (clients r))"
    by (simp add: filter_map comp_def)
  have eq: "removeClientFromRoom c room_id client_id =
           (case ?rest of
              [] \<Rightarrow> (c\<lparr>rooms := (rooms c)(room_id := None)\<rparr>, None)
            | (k, cl) # rest \<Rightarrow>
                (set_room c room_id \<lparr>clients = (k, cl\<lparr>is_initiator := True\<rparr>) # rest\<rparr>, None))"
    using a by (simp add: removeClient_present)
  show "\<exists>c'. removeClientFromRoom c room_id client_id = (c', None)
         \<and> (\<forall>other. other \<noteq> room_id \<longrightarrow> rooms c' other = rooms c other)
         \<and> members c' room_id =
             (let rest = filter (\<lambda>k. k \<noteq> client_id \<and> k \<noteq> LOOPBACK_CLIENT_ID) (map fst (clients r))
              in if rest = [] then None else Some rest)
         \<and> (\<forall>k cl. ?rest = [(k, cl)] \<longrightarrow>
               rooms c' room_id = Some \<lparr>clients = [(k, cl\<lparr>is_initiator := True\<rparr>)]\<rparr>)"
  proof (cases ?rest)
    case Nil
    with eq keys show ?thesis
      by (simp add: members_def)
  next
    case (Cons x ys)
    obtain k cl where x: "x = (k, cl)" by (cases x)
    from keys Cons x
    have k2: "filter (\<lambda>k. k \<noteq> client_id \<and> k \<noteq> LOOPBACK_CLIENT_ID) (map fst (clients r))
                = k # map fst ys"
      by simp
    from eq Cons x show ?thesis
      by (simp add: members_def rooms_set_room k2)
  qed
qed

theorem removeClientFromRoom_effect_witness:
  "rooms newRoomTable ''R1'' = None \<and>
   removeClientFromRoom newRoomTable ''R1'' ''A'' = (newRoomTable, Some ''UNKNOWN_ROOM'') \<and>
   rooms table_two ''R1'' = Some \<lparr>clients = [(''A'', clientA\<lparr>msgs := []\<rparr>), (''B'', clientB)]\<rparr> \<and>
   map_of [(''A'', clientA\<lparr>msgs := []\<rparr>), (''B'', clientB)] ''C'' = None \<and>
   removeClientFromRoom table_two ''R1'' ''C'' = (table_two, Some ''UNKNOWN_CLIENT'') \<and>
   map_of [(''A'', clientA\<lparr>msgs := []\<rparr>), (''B'', clientB)] ''A'' \<noteq> None \<and>
   snd (removeClientFromRoom table_two ''R1'' ''A'') = None \<and>
   members (fst (removeClientFromRoom table_two ''R1'' ''A'')) ''R1'' = Some [''B''] \<and>
   rooms (fst (removeClientFromRoom table_two ''R1'' ''A'')) ''R1'' =
     Some \<lparr>clients = [(''B'', clientB\<lparr>is_initiator := True\<rparr>)]\<rparr> \<and>
   rooms table_one ''R1'' = Some \<lparr>clients = [(''A'', clientA)]\<rparr> \<and>
   members (fst (removeClientFromRoom table_one ''R1'' ''A'')) ''R1'' = None"
proof -
  have n: "rooms newRoomTable ''R1'' = None" by (simp add: newRoomTable_def)
  have u1: "removeClientFromRoom newRoomTable ''R1'' ''A'' = (newRoomTable, Some ''UNKNOWN_ROOM'')"
    using removeClientFromRoom_effect [of newRoomTable "''R1''" "''A''"] n
    by (simp add: RESPONSE_UNKNOWN_ROOM_def)
  have u2: "removeClientFromRoom table_two ''R1'' ''C'' = (table_two, Some ''UNKNOWN_CLIENT'')"
    using removeClientFromRoom_effect [of table_two "''R1''" "''C''"] rooms_table_two
    by (simp add: RESPONSE_UNKNOWN_CLIENT_def)
  have f: "filter (\<lambda>kc. fst kc \<noteq> ''A'' \<and> fst kc \<noteq> LOOPBACK_CLIENT_ID)
             [(''A'', clientA\<lparr>msgs := []\<rparr>), (''B'', clientB)] = [(''B'', clientB)]"
    by (simp add: LOOPBACK_CLIENT_ID_def)
  obtain c' where c': "removeClientFromRoom table_two ''R1'' ''A'' = (c', None)"
      "members c' ''R1'' = Some [''B'']"
      "rooms c' ''R1'' = Some \<lparr>clients = [(''B'', clientB\<lparr>is_initiator := True\<rparr>)]\<rparr>"
    using removeClientFromRoom_effect [of table_two "''R1''" "''A''"] rooms_table_two f
    by (auto simp: LOOPBACK_CLIENT_ID_def)
  obtain c'' where c'': "removeClientFromRoom table_one ''R1'' ''A'' = (c'', None)"
      "members c'' ''R1'' = None"
    using removeClientFromRoom_effect [of table_one "''R1''" "''A''"] rooms_table_one
    by (auto simp: LOOPBACK_CLIENT_ID_def)
  show ?thesis
    using n u1 u2 c' c'' rooms_table_one rooms_table_two by simp
qed

subsection \<open>Room occupancy\<close>

lemma table_inv_set_room:
  "table_inv c \<Longrightarrow> wf_room r \<Longrightarrow> length (clients r) = 1 \<or> length (clients r) = 2 \<Longrightarrow>
   table_inv (set_room c room_id r)"
  by (simp add: table_inv_def set_room_def)

lemma table_inv_delete: "table_inv c \<Longrightarrow> table_inv (c\<lparr>rooms := (rooms c)(room_id := None)\<rparr>)"
  by (simp add: table_inv_def)

lemma set_room_created:
  "set_room (c\<lparr>rooms := (rooms c)(room_id \<mapsto> r0)\<rparr>) room_id r = set_room c room_id r"
  by (simp add: set_room_def)

lemma addClient_absent:
  assumes "rooms c room_id = None"
  shows "addClientToRoom c room_id client_id is_loopback =
           Some (set_room c room_id
                   (if is_loopback
                    then room_client (room_client \<lparr>clients = []\<rparr> client_id) LOOPBACK_CLIENT_ID
                    else room_client \<lparr>clients = []\<rparr> client_id),
                 True, [], None)"
  using assms
  by (simp add: addClientToRoom_def roomTable_room_absent Let_def set_room_created)

lemma first_clients:
  "clients (room_client \<lparr>clients = []\<rparr> client_id) =
     [(client_id, \<lparr>is_initiator = True, msgs = [], conn = None\<rparr>)]"
  by (simp add: room_client_def)

lemma loopback_clients:
  "clients (room_client (room_client \<lparr>clients = []\<rparr> client_id) LOOPBACK_CLIENT_ID) =
     (if client_id = LOOPBACK_CLIENT_ID
      then [(client_id, \<lparr>is_initiator = True, msgs = [], conn = None\<rparr>)]
      else [(client_id, \<lparr>is_initiator = True, msgs = [], conn = None\<rparr>),
            (LOOPBACK_CLIENT_ID, \<lparr>is_initiator = False, msgs = [], conn = None\<rparr>)])"
  by (simp add: room_client_def)

lemma addClient_inv:
  assumes "table_inv c"
  shows "\<exists>c1 res. addClientToRoom c room_id client_id is_loopback = Some (c1, res) \<and> table_inv c1"
proof (cases "rooms c room_id")
  case None
  let ?room = "if is_loopback
               then room_client (room_client \<lparr>clients = []\<rparr> client_id) LOOPBACK_CLIENT_ID
               else room_client \<lparr>clients = []\<rparr> client_id"
  have new: "wf_room ?room"
    by (simp add: wf_room_def first_clients loopback_clients)
  have len: "length (clients ?room) = 1 \<or> length (clients ?room) = 2"
    by (simp add: first_clients loopback_clients)
  have "table_inv (set_room c room_id ?room)"
    using assms new len by (rule table_inv_set_room)
  with addClient_absent [OF None, of client_id is_loopback] show ?thesis
    by blast
next
  case (Some r)
  from assms Some have wf: "wf_room r" and ln: "length (clients r) = 1 \<or> length (clients r) = 2"
    by (auto simp: table_inv_def)
  show ?thesis
  proof (cases "length (clients r) = 2")
    case True
    with Some have "addClientToRoom c room_id client_id is_loopback =
                      Some (c, False, [], Some RESPONSE_ROOM_FULL)"
      by (simp add: addClient_full)
    with assms show ?thesis by blast
  next
    case False
    with ln obtain k cl where cs: "clients r = [(k, cl)]"
      by (cases "clients r") auto
    show ?thesis
    proof (cases "client_id = k")
      case True
      with Some cs have "addClientToRoom c room_id client_id is_loopback =
                      Some (c, False, [], Some RESPONSE_DUPLICATE_CLIENT)"
        by (simp add: addClientToRoom_def roomTable_room_present)
      with assms show ?thesis by blast
    next
      case False
      have "addClientToRoom c room_id client_id is_loopback =
           Some (set_room c room_id
                   \<lparr>clients = [(k, cl\<lparr>msgs := []\<rparr>),
                               (client_id, \<lparr>is_initiator = False, msgs = [], conn = None\<rparr>)]\<rparr>,
                 False, msgs cl, None)"
        using Some cs False by (rule addClient_second)
      moreover have "table_inv (set_room c room_id
                   \<lparr>clients = [(k, cl\<lparr>msgs := []\<rparr>),
                               (client_id, \<lparr>is_initiator = False, msgs = [], conn = None\<rparr>)]\<rparr>)"
        using assms False by (intro table_inv_set_room) (auto simp: wf_room_def)
      ultimately show ?thesis by blast
    qed
  qed
qed

lemma removeClient_inv:
  assumes "table_inv c"
  shows "table_inv (fst (removeClientFromRoom c room_id client_id))"
proof (cases "rooms c room_id")
  case None
  with assms show ?thesis by (simp add: removeClientFromRoom_def)
next
  case (Some r)
  from assms Some have wf: "wf_room r" and ln: "length (clients r) = 1 \<or> length (clients r) = 2"
    by (auto simp: table_inv_def)
  show ?thesis
  proof (cases "map_of (clients r) client_id = None")
    case True
    with Some assms show ?thesis
      by (simp add: removeClientFromRoom_def roomTable_room_present)
  next
    case False
    let ?rest = "filter (\<lambda>kc. fst kc \<noteq> client_id \<and> fst kc \<noteq> LOOPBACK_CLIENT_ID) (clients r)"
    have dist: "distinct (map fst ?rest)"
      using wf by (simp add: wf_room_def distinct_map_filter)
    from False obtain kc where kc: "kc \<in> set (clients r)" "fst kc = client_id"
      by (auto simp: map_of_eq_None_iff)
    then have "length ?rest < length (clients r)"
      by (intro length_filter_less [of kc]) simp_all
    with ln have short: "length ?rest \<le> 1" by auto
    show ?thesis
    proof (cases ?rest)
      case Nil
      with Some False assms show ?thesis
        by (simp add: removeClient_present table_inv_delete)
    next
      case (Cons x ys)
      obtain k cl where x: "x = (k, cl)" by (cases x)
      from short Cons have ys: "ys = []" by simp
      have "table_inv (set_room c room_id \<lparr>clients = [(k, cl\<lparr>is_initiator := True\<rparr>)]\<rparr>)"
        using assms by (intro table_inv_set_room) (auto simp: wf_room_def)
      with Some False Cons x ys show ?thesis
        by (simp add: removeClient_present)
    qed
  qed
qed

lemma run_ops_inv:
  "table_inv c \<Longrightarrow> \<exists>c'. run_ops c ops = Some c' \<and> table_inv c'"
proof (induction ops arbitrary: c)
  case Nil
  then show ?case by simp
next
  case (Cons op ops)
  show ?case
  proof (cases op)
    case (AddClient room_id client_id is_loopback)
    from addClient_inv [OF Cons.prems, of room_id client_id is_loopback]
    obtain c1 res where a: "addClientToRoom c room_id client_id is_loopback = Some (c1, res)"
      and i: "table_inv c1" by blast
    from Cons.IH [OF i] a AddClient show ?thesis by simp
  next
    case (RemoveClient room_id client_id)
    from Cons.IH [OF removeClient_inv [OF Cons.prems, of room_id client_id]] RemoveClient
    show ?thesis by simp
  qed
qed

lemma table_inv_new: "table_inv newRoomTable"
  by (simp add: table_inv_def newRoomTable_def)

text \<open>
  Claim C7. Starting from the empty table, every sequence of \<^verbatim>\<open>addClientToRoom\<close> and
  \<^verbatim>\<open>removeClientFromRoom\<close> calls runs to its end (no call panics), and in the table it
  leaves every room that is present has 1 or 2 members, identifiers distinct: no room
  with zero members and no room with more than two is in the table.
\<close>

theorem run_ops_occupancy:
  "\<exists>c. run_ops newRoomTable ops = Some c \<and>
       (\<forall>room_id r. rooms c room_id = Some r \<longrightarrow>
          wf_room r \<and> (length (clients r) = 1 \<or> length (clients r) = 2))"
  using run_ops_inv [OF table_inv_new, of ops] by (simp add: table_inv_def)


lemma run_example:
  "run_ops newRoomTable
     [AddClient ''R1'' ''A'' False, AddClient ''R1'' ''B'' False, RemoveClient ''R1'' ''A'']
   = Some table_B"
  by (simp add: newRoomTable_def table_B_def addClientToRoom_def roomTable_room_def
      room_client_def room_other_client_def room_update_client_def set_room_def
      removeClientFromRoom_def room_remove_def LOOPBACK_CLIENT_ID_def clientB_def Let_def)

theorem run_ops_occupancy_witness:
  "run_ops newRoomTable
     [AddClient ''R1'' ''A'' False, AddClient ''R1'' ''B'' False, RemoveClient ''R1'' ''A'']
     = Some table_B \<and>
   rooms table_B ''R1'' = Some \<lparr>clients = [(''B'', clientB\<lparr>is_initiator := True\<rparr>)]\<rparr> \<and>
   wf_room \<lparr>clients = [(''B'', clientB\<lparr>is_initiator := True\<rparr>)]\<rparr> \<and>
   (length [(''B'', clientB\<lparr>is_initiator := True\<rparr>)] = 1 \<or>
    length [(''B'', clientB\<lparr>is_initiator := True\<rparr>)] = 2) \<and>
   rooms table_B ''R2'' = None"
proof -
  have r: "rooms table_B ''R1'' = Some \<lparr>clients = [(''B'', clientB\<lparr>is_initiator := True\<rparr>)]\<rparr>"
    by (simp add: table_B_def)
  obtain c where c: "run_ops newRoomTable
     [AddClient ''R1'' ''A'' False, AddClient ''R1'' ''B'' False, RemoveClient ''R1'' ''A''] = Some c"
    and inv: "\<forall>room_id r. rooms c room_id = Some r \<longrightarrow>
          wf_room r \<and> (length (clients r) = 1 \<or> length (clients r) = 2)"
    using run_ops_occupancy
      [of "[AddClient ''R1'' ''A'' False, AddClient ''R1'' ''B'' False, RemoveClient ''R1'' ''A'']"]
    by blast
  from c have "c = table_B" unfolding run_example by simp
  with inv r have "wf_room \<lparr>clients = [(''B'', clientB\<lparr>is_initiator := True\<rparr>)]\<rparr> \<and>
     (length (clients \<lparr>clients = [(''B'', clientB\<lparr>is_initiator := True\<rparr>)]\<rparr>) = 1 \<or>
      length (clients \<lparr>clients = [(''B'', clientB\<lparr>is_initiator := True\<rparr>)]\<rparr>) = 2)"
    by blast
  with r run_example show ?thesis by (simp add: table_B_def)
qed

subsection \<open>The message handler\<close>

lemma generateRandom_not_loopback: "generateRandom 8 runesDigital rnd \<noteq> LOOPBACK_CLIENT_ID"
proof
  assume "generateRandom 8 runesDigital rnd = LOOPBACK_CLIENT_ID"
  then have "length (generateRandom 8 runesDigital rnd) = length LOOPBACK_CLIENT_ID" by simp
  then show False by (simp add: generateRandom_def LOOPBACK_CLIENT_ID_def)
qed

lemma httpMessageHandler_not_saved:
  assumes "strings_Split (url_path r) CHR ''/'' = [p0, p1, room_id, client_id]"
      and "body r = Inr message" and "message \<noteq> []"
      and "saveMessageFromClient c room_id client_id message = (c1, False, err)"
  shows "httpMessageHandler send c r =
           (fst (send c1 room_id client_id message),
            (case err of Some e \<Rightarrow> [MessageResponse e] | None \<Rightarrow> []) @
            ForwardToCollider room_id client_id message #
            (case snd (send c1 room_id client_id message) of
               Some e \<Rightarrow> [HttpError (''Failed to send the message: '' @ e)]
             | None \<Rightarrow> [MessageResponse RESPONSE_SUCCESS]))"
  using assms
  by (simp add: httpMessageHandler_def sendMessageToCollider_def Let_def split: prod.splits)

text \<open>
  Claim C5 does not hold of the code. The room R1 is not in the empty table, so
  \<^verbatim>\<open>saveMessageFromClient\<close> fails with \<^verbatim>\<open>RESPONSE_UNKNOWN_ROOM\<close>; \<^verbatim>\<open>httpMessageHandler\<close>
  writes that result and then, \<^verbatim>\<open>saved\<close> being false, calls \<^verbatim>\<open>sendMessageToCollider\<close>
  all the same: the message is forwarded and a second response is written. This holds
  for every \<^verbatim>\<open>roomTable.send\<close>.
\<close>

theorem httpMessageHandler_error_still_forwards:
  "httpMessageHandler send newRoomTable \<lparr>url_path = ''/message/R1/A'', body = Inr ''hello''\<rparr> =
     (fst (send newRoomTable ''R1'' ''A'' ''hello''),
      MessageResponse RESPONSE_UNKNOWN_ROOM # ForwardToCollider ''R1'' ''A'' ''hello'' #
        (case snd (send newRoomTable ''R1'' ''A'' ''hello'') of
           Some e \<Rightarrow> [HttpError (''Failed to send the message: '' @ e)]
         | None \<Rightarrow> [MessageResponse RESPONSE_SUCCESS]))"
proof -
  have p: "strings_Split (url_path \<lparr>url_path = ''/message/R1/A'', body = Inr ''hello''\<rparr>) CHR ''/''
             = [[], ''message'', ''R1'', ''A'']"
    by simp
  have s: "saveMessageFromClient newRoomTable ''R1'' ''A'' ''hello'' =
             (newRoomTable, False, Some RESPONSE_UNKNOWN_ROOM)"
    by (simp add: saveMessageFromClient_def newRoomTable_def)
  show ?thesis
    using httpMessageHandler_not_saved [OF p _ _ s, of send] by simp
qed

text \<open>
  Claim C10. Joining a room that is not in the table with the loopback flag, under an
  identifier other than \<^verbatim>\<open>LOOPBACK_CLIENT_ID\<close> (the join handler draws eight digits),
  succeeds and leaves the room with 2 members, the client and the loopback slot. In
  that table every \<^verbatim>\<open>saveMessageFromClient\<close> of the client returns \<^verbatim>\<open>saved\<close> false, no
  error, and changes nothing, so it holds for every later message as well; and
  \<^verbatim>\<open>httpMessageHandler\<close>, for a request with a non-empty body addressed to that room
  and client, writes nothing of its own and forwards the message with
  \<^verbatim>\<open>sendMessageToCollider\<close>.
\<close>

theorem loopback_room_forwards:
  assumes "rooms c room_id = None" and "client_id \<noteq> LOOPBACK_CLIENT_ID"
  shows "\<exists>c1. addClientToRoom c room_id client_id True = Some (c1, True, [], None)
          \<and> members c1 room_id = Some [client_id, LOOPBACK_CLIENT_ID]
          \<and> (\<forall>message. saveMessageFromClient c1 room_id client_id message = (c1, False, None))
          \<and> (\<forall>send r p0 p1 message.
                strings_Split (url_path r) CHR ''/'' = [p0, p1, room_id, client_id] \<and>
                body r = Inr message \<and> message \<noteq> [] \<longrightarrow>
                httpMessageHandler send c1 r =
                  (fst (send c1 room_id client_id message),
                   ForwardToCollider room_id client_id message #
                   (case snd (send c1 room_id client_id message) of
                      Some e \<Rightarrow> [HttpError (''Failed to send the message: '' @ e)]
                    | None \<Rightarrow> [MessageResponse RESPONSE_SUCCESS])))"
proof -
  let ?room = "room_client (room_client \<lparr>clients = []\<rparr> client_id) LOOPBACK_CLIENT_ID"
  let ?c1 = "set_room c room_id ?room"
  have cs: "clients ?room =
              [(client_id, \<lparr>is_initiator = True, msgs = [], conn = None\<rparr>),
               (LOOPBACK_CLIENT_ID, \<lparr>is_initiator = False, msgs = [], conn = None\<rparr>)]"
    using assms(2) by (simp add: loopback_clients)
  have add: "addClientToRoom c room_id client_id True = Some (?c1, True, [], None)"
    using addClient_absent [OF assms(1), of client_id True] by simp
  have r: "rooms ?c1 room_id = Some ?room" by (simp add: rooms_set_room)
  have mem: "members ?c1 room_id = Some [client_id, LOOPBACK_CLIENT_ID]"
    by (simp add: members_def r cs)
  have save: "saveMessageFromClient ?c1 room_id client_id message = (?c1, False, None)" for message
    using r cs by (simp add: saveMessageFromClient_def roomTable_room_present)
  have fwd: "httpMessageHandler send ?c1 r =
                  (fst (send ?c1 room_id client_id message),
                   ForwardToCollider room_id client_id message #
                   (case snd (send ?c1 room_id client_id message) of
                      Some e \<Rightarrow> [HttpError (''Failed to send the message: '' @ e)]
                    | None \<Rightarrow> [MessageResponse RESPONSE_SUCCESS]))"
    if "strings_Split (url_path r) CHR ''/'' = [p0, p1, room_id, client_id] \<and>
                body r = Inr message \<and> message \<noteq> []" for send r p0 p1 message
    using httpMessageHandler_not_saved [of r p0 p1 room_id client_id message ?c1 ?c1 None send]
      that save by simp
  from add mem save fwd show ?thesis by blast
qed


lemma join_loopback_example:
  "addClientToRoom newRoomTable ''R1'' ''12345678'' True = Some (table_loopback, True, [], None)"
  by (simp add: addClientToRoom_def newRoomTable_def roomTable_room_def room_client_def
      set_room_def table_loopback_def LOOPBACK_CLIENT_ID_def Let_def)

theorem loopback_room_forwards_witness:
  "rooms newRoomTable ''R1'' = None \<and> ''12345678'' \<noteq> LOOPBACK_CLIENT_ID \<and>
   addClientToRoom newRoomTable ''R1'' ''12345678'' True = Some (table_loopback, True, [], None) \<and>
   members table_loopback ''R1'' = Some [''12345678'', LOOPBACK_CLIENT_ID] \<and>
   saveMessageFromClient table_loopback ''R1'' ''12345678'' ''offer'' = (table_loopback, False, None) \<and>
   snd (httpMessageHandler roomTable_send table_loopback
          \<lparr>url_path = ''/message/R1/12345678'', body = Inr ''offer''\<rparr>)
     = [ForwardToCollider ''R1'' ''12345678'' ''offer'', MessageResponse ''SUCCESS'']"
proof -
  have h1: "rooms newRoomTable ''R1'' = None" by (simp add: newRoomTable_def)
  have h2: "''12345678'' \<noteq> LOOPBACK_CLIENT_ID" by (simp add: LOOPBACK_CLIENT_ID_def)
  obtain c1 where a: "addClientToRoom newRoomTable ''R1'' ''12345678'' True = Some (c1, True, [], None)"
    and m: "members c1 ''R1'' = Some [''12345678'', LOOPBACK_CLIENT_ID]"
    and s: "\<forall>message. saveMessageFromClient c1 ''R1'' ''12345678'' message = (c1, False, None)"
    and f: "\<forall>send r p0 p1 message.
                strings_Split (url_path r) CHR ''/'' = [p0, p1, ''R1'', ''12345678''] \<and>
                body r = Inr message \<and> message \<noteq> [] \<longrightarrow>
                httpMessageHandler send c1 r =
                  (fst (send c1 ''R1'' ''12345678'' message),
                   ForwardToCollider ''R1'' ''12345678'' message #
                   (case snd (send c1 ''R1'' ''12345678'' message) of
                      Some e \<Rightarrow> [HttpError (''Failed to send the message: '' @ e)]
                    | None \<Rightarrow> [MessageResponse RESPONSE_SUCCESS]))"
    using loopback_room_forwards [OF h1 h2] by blast
  from a have c1: "c1 = table_loopback" unfolding join_loopback_example by simp
  have p: "strings_Split (url_path \<lparr>url_path = ''/message/R1/12345678'', body = Inr ''offer''\<rparr>)
             CHR ''/'' = [[], ''message'', ''R1'', ''12345678'']"
    by simp
  have snd_none: "snd (roomTable_send table_loopback ''R1'' ''12345678'' ''offer'') = None"
    by (simp add: roomTable_send_def table_loopback_def room_other_client_def
        LOOPBACK_CLIENT_ID_def)
  from f [rule_format, of "\<lparr>url_path = ''/message/R1/12345678'', body = Inr ''offer''\<rparr>"
            "[]" "''message''" "''offer''" roomTable_send] p
  have "snd (httpMessageHandler roomTable_send c1
          \<lparr>url_path = ''/message/R1/12345678'', body = Inr ''offer''\<rparr>)
     = ForwardToCollider ''R1'' ''12345678'' ''offer'' #
         (case snd (roomTable_send c1 ''R1'' ''12345678'' ''offer'') of
            Some e \<Rightarrow> [HttpError (''Failed to send the message: '' @ e)]
          | None \<Rightarrow> [MessageResponse RESPONSE_SUCCESS])"
    by simp
  with c1 snd_none have "snd (httpMessageHandler roomTable_send table_loopback
          \<lparr>url_path = ''/message/R1/12345678'', body = Inr ''offer''\<rparr>)
     = [ForwardToCollider ''R1'' ''12345678'' ''offer'', MessageResponse ''SUCCESS'']"
    by (simp add: RESPONSE_SUCCESS_def)
  with h1 h2 a m s c1 show ?thesis by simp
qed

subsection \<open>The persistent-connection session\<close>

lemma has_reg_Cons:
  "has_reg (x # xs) = ((\<exists>room_id client_id. x = StoreRegister room_id client_id None) \<or> has_reg xs)"
  by (auto simp: has_reg_def)

lemma has_reg_Nil: "\<not> has_reg []"
  by (simp add: has_reg_def)

lemma sends_guarded_append:
  "sends_guarded b (xs @ ys) = (sends_guarded b xs \<and> sends_guarded (b \<or> has_reg xs) ys)"
  by (induction b xs rule: sends_guarded.induct) (auto simp: has_reg_Cons has_reg_Nil)

lemma has_reg_I: "StoreRegister r k None \<in> set outs \<Longrightarrow> has_reg outs"
  by (auto simp: has_reg_def)

lemma ws_turn_ok:
  assumes "ws_ok st" and "ws_turn reg send ws st ev = (st', go)"
  shows "ws_ok st'"
proof (cases ev)
  case (SetReadDeadlineFails e)
  with assms show ?thesis
    by (auto simp: ws_turn_def ws_ok_def wsError_def sends_guarded_append)
next
  case (ReceiveFails e)
  with assms show ?thesis
    by (auto simp: ws_turn_def ws_ok_def wsError_def sends_guarded_append split: if_splits)
next
  case (Receive cmd roomid clientid mtext)
  with assms show ?thesis
    by (auto simp: ws_turn_def ws_ok_def wsError_def sends_guarded_append Let_def
        intro: has_reg_I split: if_splits prod.splits option.splits)
qed

lemma wsLoop_ok:
  "ws_ok st \<Longrightarrow> wsLoop reg send ws st evs = (st', status) \<Longrightarrow> ws_ok st'"
proof (induction evs arbitrary: st)
  case Nil
  then show ?case by simp
next
  case (Cons ev evs)
  obtain st1 go where t: "ws_turn reg send ws st ev = (st1, go)" by (cases "ws_turn reg send ws st ev")
  have ok1: "ws_ok st1" using Cons.prems(1) t by (rule ws_turn_ok)
  show ?case
  proof (cases go)
    case True
    with Cons.prems(2) t have "wsLoop reg send ws st1 evs = (st', status)" by simp
    with ok1 show ?thesis by (rule Cons.IH)
  next
    case False
    with Cons.prems(2) t ok1 show ?thesis by simp
  qed
qed

lemma ws_init_ok: "ws_ok (ws_init c)"
  by (simp add: ws_ok_def ws_init_def)

lemma wsLoop_append:
  "wsLoop reg send ws st (pre @ evs) =
     (case wsLoop reg send ws st pre of
        (st1, Waiting) \<Rightarrow> wsLoop reg send ws st1 evs
      | (st1, Closed) \<Rightarrow> (st1, Closed))"
  by (induction pre arbitrary: st) (auto split: prod.splits bool.splits)

lemma run_deferred_one:
  "run_deferred c [(r, k)] = (roomTable_deregister c r k, [StoreDeregister r k])"
  by simp

lemma sends_guarded_handler:
  "sends_guarded False (fst (snd (wsHandler reg send ws c evs)))"
proof -
  obtain st status where l: "wsLoop reg send ws (ws_init c) evs = (st, status)"
    by (cases "wsLoop reg send ws (ws_init c) evs")
  have ok: "ws_ok st" using ws_init_ok l by (rule wsLoop_ok)
  show ?thesis
  proof (cases status)
    case Waiting
    with l ok show ?thesis by (simp add: wsHandler_def ws_ok_def)
  next
    case Closed
    with l ok show ?thesis
      by (auto simp: wsHandler_def ws_ok_def sends_guarded_append split: prod.splits)
  qed
qed

lemma map_fst_map_entry: "map fst (AList.map_entry k f cs) = map fst cs"
  by (induction cs) auto

lemma map_of_map_entry_same:
  "map_of (AList.map_entry k f cs) k = map_option f (map_of cs k)"
  by (induction cs) auto

lemma deregister_conn: "client_conn (roomTable_deregister c room_id client_id) room_id client_id = None"
  by (auto simp: client_conn_def roomTable_deregister_def set_room_def room_update_client_def
      map_of_map_entry_same split: option.splits)

lemma deregister_members: "members (roomTable_deregister c room_id client_id) other = members c other"
  by (auto simp: members_def roomTable_deregister_def set_room_def room_update_client_def
      map_fst_map_entry split: option.splits)

text \<open>
  A document whose command is neither \<^verbatim>\<open>register\<close> nor \<^verbatim>\<open>send\<close> does not end the
  session: the loop goes on.
\<close>

lemma ws_turn_unknown_command:
  assumes "Cmd (json_into (ws_msg st) cmd roomid clientid mtext) \<noteq> ''register''"
      and "Cmd (json_into (ws_msg st) cmd roomid clientid mtext) \<noteq> ''send''"
  shows "snd (ws_turn reg send ws st (Receive cmd roomid clientid mtext)) = True"
  using assms by (simp add: ws_turn_def Let_def)

lemma ws_example_loop:
  "wsLoop roomTable_register roomTable_send 7 (ws_init table_one) ws_example
     = (ws_example_state, Closed)"
  by (simp add: ws_example_def ws_example_state_def ws_init_def ws_turn_def json_into_def
      wsError_def roomTable_register_def roomTable_send_def roomTable_room_def table_one_def
      room_update_client_def room_other_client_def set_room_def clientA_def Let_def)

text \<open>
  Claim C8. In the outputs of a session, whatever arrives and whatever the store's
  \<^verbatim>\<open>register\<close> and \<^verbatim>\<open>send\<close> do, every call of \<^verbatim>\<open>roomTable.send\<close> comes after a call of
  \<^verbatim>\<open>roomTable.register\<close> that returned \<^verbatim>\<open>nil\<close>. And when a session is still running
  after the events \<open>pre\<close>, has had no successful register, and a document with the
  command \<^verbatim>\<open>send\<close> arrives, the session ends at once: the table is the one it had, the
  only outputs added are the error sent to the peer and the close, and no store call
  is among them.
\<close>

theorem wsHandler_send_needs_register:
  "sends_guarded False (fst (snd (wsHandler reg send ws c evs)))
   \<and> (\<forall>st. wsLoop reg send ws (ws_init c) pre = (st, Waiting)
          \<and> (\<forall>room_id client_id. StoreRegister room_id client_id None \<notin> set (ws_out st))
          \<and> Cmd (json_into (ws_msg st) cmd roomid clientid mtext) = ''send''
        \<longrightarrow> wsHandler reg send ws c (pre @ Receive cmd roomid clientid mtext # rest)
             = (ws_store st, ws_out st @ [WsError ''Client not registered'', WsClose], Closed))"
proof (intro conjI allI impI)
  show "sends_guarded False (fst (snd (wsHandler reg send ws c evs)))"
    by (rule sends_guarded_handler)
next
  fix st
  assume a: "wsLoop reg send ws (ws_init c) pre = (st, Waiting)
          \<and> (\<forall>room_id client_id. StoreRegister room_id client_id None \<notin> set (ws_out st))
          \<and> Cmd (json_into (ws_msg st) cmd roomid clientid mtext) = ''send''"
  then have l: "wsLoop reg send ws (ws_init c) pre = (st, Waiting)" by simp
  have ok: "ws_ok st" using ws_init_ok l by (rule wsLoop_ok)
  with a have unreg: "\<not> ws_registered st" and d: "ws_deferred st = []"
    by (auto simp: ws_ok_def)
  from a unreg have t: "ws_turn reg send ws st (Receive cmd roomid clientid mtext) =
      (wsError ''Client not registered''
         (st\<lparr>ws_msg := json_into (ws_msg st) cmd roomid clientid mtext\<rparr>), False)"
    by (simp add: ws_turn_def Let_def)
  from l t have "wsLoop reg send ws (ws_init c) (pre @ Receive cmd roomid clientid mtext # rest) =
      (wsError ''Client not registered''
         (st\<lparr>ws_msg := json_into (ws_msg st) cmd roomid clientid mtext\<rparr>), Closed)"
    by (simp add: wsLoop_append)
  with d show "wsHandler reg send ws c (pre @ Receive cmd roomid clientid mtext # rest)
             = (ws_store st, ws_out st @ [WsError ''Client not registered'', WsClose], Closed)"
    by (simp add: wsHandler_def wsError_def)
qed

theorem wsHandler_send_needs_register_witness:
  "wsLoop roomTable_register roomTable_send 7 (ws_init table_one) [] = (ws_init table_one, Waiting) \<and>
   ws_out (ws_init table_one) = [] \<and>
   Cmd (json_into (ws_msg (ws_init table_one)) (Some ''send'') None None (Some ''hi'')) = ''send'' \<and>
   wsHandler roomTable_register roomTable_send 7 table_one
       [Receive (Some ''send'') None None (Some ''hi'')]
     = (table_one, [WsError ''Client not registered'', WsClose], Closed) \<and>
   sends_guarded False
     (fst (snd (wsHandler roomTable_register roomTable_send 7 table_one ws_example)))"
proof -
  have h1: "wsLoop roomTable_register roomTable_send 7 (ws_init table_one) []
              = (ws_init table_one, Waiting)" by simp
  have h2: "ws_out (ws_init table_one) = []" by (simp add: ws_init_def)
  have h3: "Cmd (json_into (ws_msg (ws_init table_one)) (Some ''send'') None None (Some ''hi''))
              = ''send''" by (simp add: json_into_def)
  have s: "ws_store (ws_init table_one) = table_one" by (simp add: ws_init_def)
  from wsHandler_send_needs_register
         [of roomTable_register roomTable_send 7 table_one ws_example "[]"
             "Some ''send''" None None "Some ''hi''" "[]"]
  have g: "sends_guarded False
             (fst (snd (wsHandler roomTable_register roomTable_send 7 table_one ws_example)))"
    and e: "\<forall>st. wsLoop roomTable_register roomTable_send 7 (ws_init table_one) [] = (st, Waiting)
          \<and> (\<forall>room_id client_id. StoreRegister room_id client_id None \<notin> set (ws_out st))
          \<and> Cmd (json_into (ws_msg st) (Some ''send'') None None (Some ''hi'')) = ''send''
        \<longrightarrow> wsHandler roomTable_register roomTable_send 7 table_one
               ([] @ Receive (Some ''send'') None None (Some ''hi'') # [])
             = (ws_store st, ws_out st @ [WsError ''Client not registered'', WsClose], Closed)"
    by blast+
  from e h1 h2 h3 have "wsHandler roomTable_register roomTable_send 7 table_one
               ([] @ Receive (Some ''send'') None None (Some ''hi'') # [])
             = (ws_store (ws_init table_one),
                ws_out (ws_init table_one) @ [WsError ''Client not registered'', WsClose], Closed)"
    by simp
  with h1 h2 h3 g s show ?thesis by simp
qed

text \<open>
  Claim C9. When the loop of a session is left, by whatever path, and the session has
  registered, \<^verbatim>\<open>wsHandler\<close> closes the connection and then runs exactly one deferred
  \<^verbatim>\<open>roomTable.deregister\<close>, for the room and client of the successful register. In the
  table this leaves, that client has no live connection, and every room has the
  members it had when the loop was left. (\<^verbatim>\<open>roomTable.deregister\<close> is modelled from the
  spec.)
\<close>

theorem wsHandler_unbinds_on_exit:
  assumes "wsLoop reg send ws (ws_init c) evs = (st, Closed)" and "ws_registered st"
  shows "wsHandler reg send ws c evs =
           (roomTable_deregister (ws_store st) (ws_rid st) (ws_cid st),
            ws_out st @ [WsClose, StoreDeregister (ws_rid st) (ws_cid st)], Closed)
       \<and> StoreRegister (ws_rid st) (ws_cid st) None \<in> set (ws_out st)
       \<and> client_conn (roomTable_deregister (ws_store st) (ws_rid st) (ws_cid st))
            (ws_rid st) (ws_cid st) = None
       \<and> (\<forall>room_id. members (roomTable_deregister (ws_store st) (ws_rid st) (ws_cid st)) room_id
                     = members (ws_store st) room_id)"
proof -
  have ok: "ws_ok st" using ws_init_ok assms(1) by (rule wsLoop_ok)
  with assms(2) have d: "ws_deferred st = [(ws_rid st, ws_cid st)]"
    and r: "StoreRegister (ws_rid st) (ws_cid st) None \<in> set (ws_out st)"
    by (auto simp: ws_ok_def)
  from assms(1) d have "wsHandler reg send ws c evs =
           (roomTable_deregister (ws_store st) (ws_rid st) (ws_cid st),
            ws_out st @ [WsClose, StoreDeregister (ws_rid st) (ws_cid st)], Closed)"
    by (simp add: wsHandler_def)
  with r show ?thesis
    by (simp add: deregister_conn deregister_members)
qed

theorem wsHandler_unbinds_on_exit_witness:
  "wsLoop roomTable_register roomTable_send 7 (ws_init table_one) ws_example
     = (ws_example_state, Closed) \<and>
   ws_registered ws_example_state \<and>
   client_conn (ws_store ws_example_state) ''R1'' ''A'' = Some 7 \<and>
   wsHandler roomTable_register roomTable_send 7 table_one ws_example =
     (table_one,
      [StoreRegister ''R1'' ''A'' None, DashIncrWs, StoreSend ''R1'' ''A'' ''hi'',
       WsError ''Duplicated register request'', WsClose, StoreDeregister ''R1'' ''A''],
      Closed) \<and>
   client_conn table_one ''R1'' ''A'' = None \<and>
   members table_one ''R1'' = members (ws_store ws_example_state) ''R1'' \<and>
   members table_one ''R1'' = Some [''A'']"
proof -
  have h2: "ws_registered ws_example_state" by (simp add: ws_example_state_def)
  have b: "client_conn (ws_store ws_example_state) ''R1'' ''A'' = Some 7"
    by (simp add: ws_example_state_def client_conn_def)
  have d: "roomTable_deregister (ws_store ws_example_state) ''R1'' ''A'' = table_one"
    by (simp add: ws_example_state_def roomTable_deregister_def set_room_def
        room_update_client_def table_one_def clientA_def)
  have o: "ws_out ws_example_state =
           [StoreRegister ''R1'' ''A'' None, DashIncrWs, StoreSend ''R1'' ''A'' ''hi'',
            WsError ''Duplicated register request'']"
    by (simp add: ws_example_state_def)
  have i: "ws_rid ws_example_state = ''R1''" "ws_cid ws_example_state = ''A''"
    by (simp_all add: ws_example_state_def)
  have m: "members table_one ''R1'' = Some [''A'']"
    by (simp add: members_def table_one_def)
  show ?thesis
    using wsHandler_unbinds_on_exit [OF ws_example_loop h2] ws_example_loop h2 b m
    by (simp add: i d o)
qed

end
